theory Spec2Isabelle
  imports Complex_Main "HOL-Library.Multiset"
begin

section \<open>Python strings\<close>

text \<open>
  A Python \<open>str\<close> is a sequence of Unicode code points, so a string is modelled as a list of
  natural numbers; \<open>u\<close> turns an Isabelle literal into such a list. The character classes
  are those of CPython: \<open>isspace\<close> lists every code point that \<open>str.strip()\<close> and
  \<open>str.split()\<close> treat as white space. \<open>lower_cp\<close> is \<open>str.lower()\<close> on the code
  points up to U+00FF (the ASCII and Latin-1 capital letters); the alphabet of this model
  ends there, and code points above it are left as they are.
\<close>

type_synonym ustr = "nat list"

definition u :: "string \<Rightarrow> ustr" where
  "u s = map of_char s"

definition nl :: ustr where
  "nl = [10]"

definition isspace :: "nat \<Rightarrow> bool" where
  "isspace c =
     (c \<in> {9, 10, 11, 12, 13, 28, 29, 30, 31, 32, 133, 160, 5760,
            8232, 8233, 8239, 8287, 12288} \<or> (8192 \<le> c \<and> c \<le> 8202))"

definition lower_cp :: "nat \<Rightarrow> nat" where
  "lower_cp c =
     (if 65 \<le> c \<and> c \<le> 90 then c + 32
      else if 192 \<le> c \<and> c \<le> 222 \<and> c \<noteq> 215 then c + 32
      else c)"

definition str_lower :: "ustr \<Rightarrow> ustr" where
  "str_lower s = map lower_cp s"

definition str_strip :: "ustr \<Rightarrow> ustr" where
  "str_strip s = rev (dropWhile isspace (rev (dropWhile isspace s)))"

definition starts_with :: "ustr \<Rightarrow> ustr \<Rightarrow> bool" where
  "starts_with pat s = (take (length pat) s = pat)"

text \<open>\<open>sub in s\<close>: \<open>sub\<close> occurs in \<open>s\<close> as a contiguous substring.\<close>

fun str_contains :: "ustr \<Rightarrow> ustr \<Rightarrow> bool" where
  "str_contains sub [] = (sub = [])"
| "str_contains sub (c # cs) = (starts_with sub (c # cs) \<or> str_contains sub cs)"

text \<open>\<open>s.replace(c, '')\<close> for a single character \<open>c\<close>.\<close>

definition str_remove :: "nat \<Rightarrow> ustr \<Rightarrow> ustr" where
  "str_remove c s = filter (\<lambda>x. x \<noteq> c) s"

text \<open>\<open>s.split(c)\<close> for a single character \<open>c\<close>: the empty string gives one empty field.\<close>

fun str_split :: "nat \<Rightarrow> ustr \<Rightarrow> ustr list" where
  "str_split c [] = [[]]"
| "str_split c (x # xs) =
     (if x = c then [] # str_split c xs
      else (case str_split c xs of
              [] \<Rightarrow> [[x]]
            | w # ws \<Rightarrow> (x # w) # ws))"

text \<open>
  \<open>s.split()\<close>: the maximal runs of characters that are not white space. The first
  argument is the word being read.
\<close>

fun split_ws_from :: "ustr \<Rightarrow> ustr \<Rightarrow> ustr list" where
  "split_ws_from cur [] = (if cur = [] then [] else [cur])"
| "split_ws_from cur (c # cs) =
     (if isspace c then (if cur = [] then split_ws_from [] cs else cur # split_ws_from [] cs)
      else split_ws_from (cur @ [c]) cs)"

definition str_split_ws :: "ustr \<Rightarrow> ustr list" where
  "str_split_ws s = split_ws_from [] s"

fun str_join :: "ustr \<Rightarrow> ustr list \<Rightarrow> ustr" where
  "str_join sep [] = []"
| "str_join sep [w] = w"
| "str_join sep (w # v # ws) = w @ sep @ str_join sep (v # ws)"

section \<open>The think-tag pattern\<close>

text \<open>
  \<open>re.sub(r'<(think|thought)>.*?</\1>', '', response, flags=re.DOTALL | re.IGNORECASE)\<close>.
  The scan goes from left to right. At a position where an opening tag stands, the lazy
  \<open>.*?\<close> ends at the first closing tag of the same name (the back-reference is compared
  without case as well); the match is deleted and the scan goes on behind it. An opening
  tag with no closing tag behind it matches nothing, and since \<open><think>\<close> and
  \<open><thought>\<close> differ in their fourth letter, the other alternative cannot match at
  that position either.
\<close>

definition starts_with_ci :: "ustr \<Rightarrow> ustr \<Rightarrow> bool" where
  "starts_with_ci pat s = (str_lower (take (length pat) s) = str_lower pat)"

fun find_after :: "ustr \<Rightarrow> ustr \<Rightarrow> ustr option" where
  "find_after pat [] = (if pat = [] then Some [] else None)"
| "find_after pat (c # cs) =
     (if starts_with_ci pat (c # cs) then Some (drop (length pat) (c # cs))
      else find_after pat cs)"

definition match_think_at :: "ustr \<Rightarrow> ustr option" where
  "match_think_at s =
     (if starts_with_ci (u ''<think>'') s then find_after (u ''</think>'') (drop 7 s)
      else if starts_with_ci (u ''<thought>'') s then find_after (u ''</thought>'') (drop 9 s)
      else None)"

lemma find_after_length: "find_after pat s = Some r \<Longrightarrow> length r \<le> length s"
  by (induction s) (auto split: if_splits)

lemma match_think_at_length: "match_think_at s = Some r \<Longrightarrow> length r < length s"
proof -
  assume m: "match_think_at s = Some r"
  have ne: "starts_with_ci (u ''<think>'') s \<or> starts_with_ci (u ''<thought>'') s"
    using m by (auto simp: match_think_at_def split: if_splits)
  have "7 \<le> length s"
  proof (rule ccontr)
    assume "\<not> 7 \<le> length s"
    then have "length (str_lower (take 7 s)) < 7" "length (str_lower (take 9 s)) < 7"
      by (simp_all add: str_lower_def)
    moreover have "length (str_lower (u ''<think>'')) = 7" "length (str_lower (u ''<thought>'')) = 9"
      by (simp_all add: u_def str_lower_def)
    moreover have "length (u ''<think>'') = 7" "length (u ''<thought>'') = 9"
      by (simp_all add: u_def)
    ultimately show False
      using ne by (auto simp: starts_with_ci_def)
  qed
  moreover have "length r \<le> length (drop 7 s) \<or> length r \<le> length (drop 9 s)"
    using m by (auto simp: match_think_at_def split: if_splits dest: find_after_length)
  ultimately show ?thesis
    by auto
qed

function strip_think :: "ustr \<Rightarrow> ustr" where
  "strip_think [] = []"
| "strip_think (c # cs) =
     (case match_think_at (c # cs) of
        Some rest \<Rightarrow> strip_think rest
      | None \<Rightarrow> c # strip_think cs)"
  by pat_completeness auto
termination
  by (relation "measure length") (auto dest: match_think_at_length)

section \<open>The decision engine (brain.py)\<close>

subsection \<open>The completion provider\<close>

text \<open>
  The provider is outside the program: a backend is a function from the request to either
  the text it answers or the exception it raises. \<open>exc\<close> stands for the exceptions derived
  from Python's \<open>Exception\<close>, which is what a failing request raises and what the handler
  of \<open>_generate_response\<close> names; the argument is the message. For the chat-completion
  client the content of the first choice may be \<open>None\<close>.
\<close>

datatype exc = Exception ustr

type_synonym gemini_backend = "ustr \<Rightarrow> real \<Rightarrow> nat \<Rightarrow> exc + ustr"

type_synonym openai_backend = "ustr \<Rightarrow> ustr \<Rightarrow> real \<Rightarrow> nat \<Rightarrow> exc + ustr option"

record KirgBrain =
  provider :: ustr
  gemini_model :: "gemini_backend option"
  client :: "openai_backend option"

definition call_gemini :: "gemini_backend \<Rightarrow> ustr \<Rightarrow> ustr \<Rightarrow> real \<Rightarrow> nat \<Rightarrow> exc + ustr option" where
  "call_gemini g system_prompt user_prompt temperature max_tokens =
     (let combined_prompt =
            u ''SYSTEM INSTRUCTION: '' @ system_prompt @ nl @ nl @ u ''USER INPUT: '' @ user_prompt
      in case g combined_prompt temperature max_tokens of
           Inl e \<Rightarrow> Inl e
         | Inr text \<Rightarrow> Inr (Some (str_strip text)))"

text \<open>\<open>content.strip()\<close> on a content that is \<open>None\<close> raises AttributeError.\<close>

definition call_client :: "openai_backend option \<Rightarrow> ustr \<Rightarrow> ustr \<Rightarrow> real \<Rightarrow> nat \<Rightarrow> exc + ustr option" where
  "call_client cl system_prompt user_prompt temperature max_tokens =
     (case cl of
        Some c \<Rightarrow>
          (case c system_prompt user_prompt temperature max_tokens of
             Inl e \<Rightarrow> Inl e
           | Inr None \<Rightarrow> Inl (Exception (u ''AttributeError''))
           | Inr (Some content) \<Rightarrow> Inr (Some (str_strip content)))
      | None \<Rightarrow> Inr None)"

text \<open>The body of the \<open>try\<close> block of \<open>_generate_response\<close>.\<close>

definition generate_try :: "KirgBrain \<Rightarrow> ustr \<Rightarrow> ustr \<Rightarrow> real \<Rightarrow> nat \<Rightarrow> exc + ustr option" where
  "generate_try b system_prompt user_prompt temperature max_tokens =
     (case gemini_model b of
        Some g \<Rightarrow>
          if provider b = u ''gemini''
          then call_gemini g system_prompt user_prompt temperature max_tokens
          else call_client (client b) system_prompt user_prompt temperature max_tokens
      | None \<Rightarrow> call_client (client b) system_prompt user_prompt temperature max_tokens)"

text \<open>\<open>_generate_response\<close>: the handler \<open>except Exception\<close> prints and returns \<open>None\<close>.\<close>

definition generate_response :: "KirgBrain \<Rightarrow> ustr \<Rightarrow> ustr \<Rightarrow> real \<Rightarrow> nat \<Rightarrow> ustr option" where
  "generate_response b system_prompt user_prompt temperature max_tokens =
     (case generate_try b system_prompt user_prompt temperature max_tokens of
        Inl e \<Rightarrow> None
      | Inr r \<Rightarrow> r)"

text \<open>\<open>not response\<close> for an optional string: \<open>None\<close> and the empty string are false.\<close>

definition falsy :: "ustr option \<Rightarrow> bool" where
  "falsy r = (case r of None \<Rightarrow> True | Some s \<Rightarrow> s = [])"

subsection \<open>Prompts of the reactive path\<close>

type_synonym history = "(ustr \<times> ustr) list"

definition SKIP :: ustr where
  "SKIP = u ''[SKIP]''"

definition reactive_system_prompt :: "ustr \<Rightarrow> bool \<Rightarrow> ustr" where
  "reactive_system_prompt my_name is_direct =
     u ''You are '' @ my_name
       @ u '', a 17-year-old Discord native. You're a bit of a shut-in, gamer, and tech enthusiast.'' @ nl
       @ u ''PERSONALIDADE:'' @ nl
       @ u ''- Casual, witty, uses internet slang (slk, mid, peak, intankavel, fds, peak).'' @ nl
       @ u ''- Focus on responding naturally to one specific person in the conversation.'' @ nl
       @ u ''CHAT DYNAMICS:'' @ nl
       @ u ''- DO NOT prefix messages with anyone's name (e.g., 'Ian: hi' or 'User: hi' are FORBIDDEN).'' @ nl
       @ u ''- WRITE ONLY THE MESSAGE CONTENT.'' @ nl
       @ u ''- You can send 1 to 3 messages to complete a thought, separated by newlines.'' @ nl
       @ u ''- If you have nothing relevant to say, send only [SKIP].'' @ nl
       @ u ''- Write in lowercase, no formal punctuation.'' @ nl
       @ u ''- NEVER repeat what was just said.'' @ nl
       @ u ''- Talk directly to people without repeating their names constantly.''
       @ (if is_direct
          then nl @ u ''IMPORTANT: You were mentioned. DO NOT [SKIP], respond now.''
          else [])"

definition render_history :: "history \<Rightarrow> ustr" where
  "render_history h = concat (map (\<lambda>(author, content). author @ u '': '' @ content @ nl) h)"

text \<open>
  \<open>active_users\<close> and \<open>recent_contents\<close> are Python sets. The order in which
  \<open>", ".join(active_users)\<close> lists the names is not fixed by Python; the model lists each
  name once, and only the provider ever sees that order.
\<close>

definition active_users :: "history \<Rightarrow> ustr list" where
  "active_users h = remdups (map fst h)"

definition recent_contents :: "history \<Rightarrow> ustr set" where
  "recent_contents h = set (map (\<lambda>(author, content). str_strip (str_lower content)) h)"

definition reactive_user_prompt :: "history \<Rightarrow> ustr \<Rightarrow> ustr" where
  "reactive_user_prompt h my_name =
     u ''PARTICIPANTS: ['' @ str_join (u '', '') (active_users h) @ u '']'' @ nl @ nl
       @ u ''RECENT CHAT:'' @ nl @ render_history h @ nl @ u ''---'' @ nl
       @ u ''Respond as '' @ my_name @ u ''. Send ONLY your response, no names prefixing.''"

subsection \<open>The post-processor\<close>

definition common_slang :: "ustr set" where
  "common_slang = {u ''intankavel'', u ''slk'', u ''fds'', u ''mid'', u ''peak''}"

text \<open>
  The filter of invented turns (the block under \<open>if ":" in line\<close>): \<open>None\<close> is the
  \<open>continue\<close> that drops the line, \<open>Some\<close> carries the line on to the next filter.
\<close>

definition colon :: nat where
  "colon = 58"

text \<open>\<open>line.split(":", 1)\<close> of a line with a colon: \<open>parts[0]\<close> and \<open>parts[1]\<close>.\<close>

definition before_colon :: "ustr \<Rightarrow> ustr" where
  "before_colon line = takeWhile (\<lambda>c. c \<noteq> colon) line"

definition after_colon :: "ustr \<Rightarrow> ustr" where
  "after_colon line = tl (dropWhile (\<lambda>c. c \<noteq> colon) line)"

definition filter_hallucinated :: "ustr list \<Rightarrow> ustr \<Rightarrow> ustr \<Rightarrow> ustr option" where
  "filter_hallucinated users my_name line =
     (if colon \<in> set line then
        (let name_part = str_lower (str_strip (before_colon line))
         in if name_part \<in> set (map str_lower users) \<or> name_part = str_lower my_name then
              (if name_part = str_lower my_name
               then Some (str_strip (after_colon line))
               else None)
            else Some line)
      else Some line)"

text \<open>The loop over the words of a line; \<open>seen\<close> is \<open>seen_slang\<close>.\<close>

definition slang_key :: "ustr \<Rightarrow> ustr" where
  "slang_key w = str_remove 44 (str_remove 46 (str_lower w))"

fun dedup_slang :: "ustr set \<Rightarrow> ustr list \<Rightarrow> ustr list" where
  "dedup_slang seen [] = []"
| "dedup_slang seen (w # ws) =
     (let wc = slang_key w
      in if wc \<in> common_slang then
           (if wc \<in> seen then dedup_slang seen ws
            else w # dedup_slang (insert wc seen) ws)
         else w # dedup_slang seen ws)"

definition strip_quotes :: "ustr \<Rightarrow> ustr" where
  "strip_quotes s = str_remove 39 (str_remove 34 s)"

definition clean_line :: "ustr \<Rightarrow> ustr" where
  "clean_line line = strip_quotes (str_join (u '' '') (dedup_slang {} (str_split_ws line)))"

text \<open>
  One turn of the loop over the lines, up to \<open>line_clean\<close>: \<open>None\<close> when the turn ends in
  a \<open>continue\<close> before that.
\<close>

definition process_line :: "ustr list \<Rightarrow> ustr set \<Rightarrow> ustr \<Rightarrow> ustr \<Rightarrow> ustr option" where
  "process_line users recent my_name raw =
     (let line = str_strip raw
      in if line = [] \<or> str_contains SKIP line then None
         else (case filter_hallucinated users my_name line of
                 None \<Rightarrow> None
               | Some line' \<Rightarrow>
                   if str_strip (str_lower line') \<in> recent then None
                   else Some (clean_line line')))"

fun collect_msgs :: "ustr list \<Rightarrow> ustr set \<Rightarrow> ustr \<Rightarrow> ustr list \<Rightarrow> ustr list \<Rightarrow> ustr list" where
  "collect_msgs users recent my_name valid_msgs [] = valid_msgs"
| "collect_msgs users recent my_name valid_msgs (raw # lines) =
     (case process_line users recent my_name raw of
        None \<Rightarrow> collect_msgs users recent my_name valid_msgs lines
      | Some line_clean \<Rightarrow>
          if line_clean = [] then collect_msgs users recent my_name valid_msgs lines
          else if str_lower line_clean \<in> set (map str_lower valid_msgs)
          then collect_msgs users recent my_name valid_msgs lines
          else collect_msgs users recent my_name (valid_msgs @ [line_clean]) lines)"

text \<open>Everything of \<open>decide_and_respond\<close> behind the provider call.\<close>

definition post_process :: "history \<Rightarrow> ustr \<Rightarrow> ustr option \<Rightarrow> ustr list option" where
  "post_process h my_name response =
     (if falsy response then None
      else (case response of
              None \<Rightarrow> None
            | Some raw \<Rightarrow>
                (let cleaned = str_strip (strip_think raw)
                 in if str_contains SKIP cleaned then None
                    else (let valid_msgs =
                                collect_msgs (active_users h) (recent_contents h) my_name []
                                  (str_split 10 cleaned)
                          in if valid_msgs = [] then None else Some (take 3 valid_msgs)))))"

definition decide_and_respond :: "KirgBrain \<Rightarrow> history \<Rightarrow> ustr \<Rightarrow> bool \<Rightarrow> ustr list option" where
  "decide_and_respond b chat_history my_name is_direct =
     post_process chat_history my_name
       (generate_response b (reactive_system_prompt my_name is_direct)
          (reactive_user_prompt chat_history my_name) 0.7 150)"

subsection \<open>The proactive path\<close>

definition proactive_system_prompt :: "ustr \<Rightarrow> ustr" where
  "proactive_system_prompt my_name =
     u ''You are '' @ my_name @ u '', 17. The chat is quiet and you are bored.'' @ nl
       @ u ''OBJECTIVE: Send a short message to start a conversation or vent about boredom.'' @ nl
       @ u ''TOPICS: Games, lag, bad ping, school, food, internet drama, or random thoughts.'' @ nl
       @ u ''STYLE: Casual, lowercase, discord slang (slk, fds, intankavel).'' @ nl
       @ u ''RULES: NO greetings, speak directly, max 10 words.''"

text \<open>\<open>chat_history[-5:]\<close>: the last five entries, or all of them when there are fewer.\<close>

definition last_n :: "nat \<Rightarrow> 'a list \<Rightarrow> 'a list" where
  "last_n n xs = drop (length xs - n) xs"

definition proactive_user_prompt :: "history \<Rightarrow> ustr \<Rightarrow> ustr" where
  "proactive_user_prompt h my_name =
     u ''RECENT CHAT:'' @ nl @ render_history (last_n 5 h) @ nl @ u ''---'' @ nl
       @ u ''What would '' @ my_name @ u '' say right now?''"

text \<open>The fallback line \<open>slk que t\'edio\<close>; its accented letter is U+00E9.\<close>

definition fallback :: ustr where
  "fallback = u ''slk que t'' @ [233] @ u ''dio''"

definition proactive_post :: "ustr option \<Rightarrow> ustr list" where
  "proactive_post response =
     (case response of
        None \<Rightarrow> [fallback]
      | Some raw \<Rightarrow>
          if raw = [] \<or> str_contains SKIP raw then [fallback]
          else [str_lower (strip_quotes (str_strip (strip_think raw)))])"

definition decide_proactive_message :: "KirgBrain \<Rightarrow> history \<Rightarrow> ustr \<Rightarrow> ustr list" where
  "decide_proactive_message b chat_history my_name =
     proactive_post
       (generate_response b (proactive_system_prompt my_name)
          (proactive_user_prompt chat_history my_name) 0.9 60)"

section \<open>The client (main.py)\<close>

subsection \<open>Replacement, identifiers, the bounded memory\<close>

text \<open>
  \<open>str.replace(old, new)\<close> and \<open>re.compile(re.escape(old), re.IGNORECASE).sub(new, s)\<close>
  both replace the occurrences of a literal from left to right without overlap; the flag
  says whether letters are compared without case. An empty \<open>old\<close> matches before every
  character and at the end. The replacement of \<open>sub\<close> is a template in which only a
  backslash is special; the tokens stored in \<open>known_users\<close> are \<open>user.mention\<close> strings
  of the form \<open><@id>\<close>, so the template is taken literally.
\<close>

function replace_gen :: "bool \<Rightarrow> ustr \<Rightarrow> ustr \<Rightarrow> ustr \<Rightarrow> ustr" where
  "replace_gen ci old new [] = (if old = [] then new else [])"
| "replace_gen ci old new (c # cs) =
     (if old = [] then new @ c # replace_gen ci old new cs
      else if (if ci then starts_with_ci old (c # cs) else starts_with old (c # cs))
      then new @ replace_gen ci old new (drop (length old) (c # cs))
      else c # replace_gen ci old new cs)"
  by pat_completeness auto
termination
  by (relation "measure (\<lambda>(ci, old, new, s). length s)") auto

definition str_replace :: "ustr \<Rightarrow> ustr \<Rightarrow> ustr \<Rightarrow> ustr" where
  "str_replace old new s = replace_gen False old new s"

definition re_sub_ignorecase :: "ustr \<Rightarrow> ustr \<Rightarrow> ustr \<Rightarrow> ustr" where
  "re_sub_ignorecase name mention text = replace_gen True name mention text"

text \<open>The decimal digits of an identifier, as an f-string prints it.\<close>

fun str_of_nat :: "nat \<Rightarrow> ustr" where
  "str_of_nat n = (if n < 10 then [48 + n] else str_of_nat (n div 10) @ [48 + n mod 10])"

declare str_of_nat.simps [simp del]

definition HISTORY_LIMIT :: nat where
  "HISTORY_LIMIT = 12"

text \<open>\<open>deque(maxlen=HISTORY_LIMIT).append\<close>: a full deque gives up its oldest entry.\<close>

definition deque_append :: "'a \<Rightarrow> 'a list \<Rightarrow> 'a list" where
  "deque_append x xs = (if length xs < HISTORY_LIMIT then xs @ [x] else tl xs @ [x])"

subsection \<open>What the gateway hands over\<close>

record user =
  u_id :: nat
  u_bot :: bool
  u_name :: ustr
  u_display_name :: ustr
  u_nick :: "ustr option"
  u_mention :: ustr

record guild =
  g_members :: "user list"
  g_me_display_name :: ustr

text \<open>
  \<open>m_mentions_me\<close> is \<open>self.user.mentioned_in(message)\<close>; \<open>m_reference_author\<close> is the id
  of the author of the cached message that this one replies to, when there is one.
\<close>

record message =
  m_id :: nat
  m_author :: user
  m_guild :: "guild option"
  m_channel_id :: nat
  m_content :: ustr
  m_mentions_me :: bool
  m_reference_author :: "nat option"

definition get_member :: "guild \<Rightarrow> nat \<Rightarrow> user option" where
  "get_member g i = find (\<lambda>mb. u_id mb = i) (g_members g)"

subsection \<open>The state of the client\<close>

text \<open>
  The fields of \<open>KirgClient\<close> after \<open>on_ready\<close>, where \<open>me_user\<close> is \<open>self.user\<close>. The
  brain does not change and is passed beside the state. \<open>known_users\<close> is a dict, kept
  as a list of pairs in insertion order with each key once, because \<open>sorted\<close> is stable.
  The keys of \<open>chat_memories\<close> are channel ids and the strings \<open>dm_<id>\<close>. The lock is
  held exactly when \<open>processing_lock\<close> is true.
\<close>

datatype memory_id = Channel nat | Dm nat

type_synonym dict = "(ustr \<times> ustr) list"

record KirgClient =
  me_user :: user
  target_channel_id :: "nat option"
  chat_memories :: "memory_id \<Rightarrow> history option"
  processing_lock :: bool
  known_users :: dict
  channel_debounces :: "nat \<Rightarrow> real option"
  channel_mentions_pending :: "nat \<Rightarrow> bool option"
  last_activity_time :: real
  next_activity_trigger :: real

fun dict_set :: "ustr \<Rightarrow> ustr \<Rightarrow> dict \<Rightarrow> dict" where
  "dict_set k v [] = [(k, v)]"
| "dict_set k v ((k', v') # d) = (if k' = k then (k, v) # d else (k', v') # dict_set k v d)"

text \<open>
  \<open>_schedule_next_proactivity\<close>: \<open>now\<close> is the clock reading, \<open>minutes\<close> the random draw.
\<close>

definition schedule_next_proactivity :: "real \<Rightarrow> real \<Rightarrow> KirgClient \<Rightarrow> KirgClient" where
  "schedule_next_proactivity now minutes st = st\<lparr>next_activity_trigger := now + minutes * 60\<rparr>"

definition remember_user :: "user \<Rightarrow> dict \<Rightarrow> dict" where
  "remember_user usr known =
     (if u_bot usr then known
      else
        (let keys0 = [str_lower (u_name usr)];
             keys1 = (if u_display_name usr \<noteq> [] \<and> str_lower (u_display_name usr) \<noteq> str_lower (u_name usr)
                      then keys0 @ [str_lower (u_display_name usr)] else keys0);
             keys2 = (case u_nick usr of
                        None \<Rightarrow> keys1
                      | Some n \<Rightarrow> if n \<noteq> [] \<and> str_lower n \<notin> set keys1
                                  then keys1 @ [str_lower n] else keys1)
         in fold (\<lambda>k d. dict_set k (u_mention usr) d) keys2 known))"

definition get_real_name :: "user \<Rightarrow> guild option \<Rightarrow> dict \<Rightarrow> dict \<times> ustr" where
  "get_real_name author g known =
     (case g of
        Some gd \<Rightarrow>
          (let member = (case get_member gd (u_id author) of Some mb \<Rightarrow> mb | None \<Rightarrow> author);
               known' = remember_user member known
           in case u_nick member of
                None \<Rightarrow> (known', u_display_name author)
              | Some n \<Rightarrow> if n \<noteq> [] then (known', n) else (known', u_display_name author))
      | None \<Rightarrow> (remember_user author known, u_display_name author))"

subsection \<open>Mention resolution\<close>

text \<open>
  \<open>sorted(self.known_users.keys(), key=len, reverse=True)\<close> is a stable sort by falling
  length. The loop reads \<open>self.known_users[name]\<close> for each sorted key; here the pair of
  key and token is sorted as one.
\<close>

definition sorted_names :: "dict \<Rightarrow> dict" where
  "sorted_names known = sort_key (\<lambda>(name, mention). - int (length name)) known"

fun format_loop :: "dict \<Rightarrow> ustr \<Rightarrow> ustr" where
  "format_loop [] text = text"
| "format_loop ((name, mention) # names) text =
     (if str_contains name (str_lower text)
      then format_loop names (re_sub_ignorecase name mention text)
      else format_loop names text)"

definition format_mentions :: "dict \<Rightarrow> ustr \<Rightarrow> ustr" where
  "format_mentions known text = (if text = [] then text else format_loop (sorted_names known) text)"

subsection \<open>The message handler\<close>

text \<open>
  \<open>on_message\<close> runs from its start to \<open>await asyncio.sleep(wait_time)\<close> without giving
  up control (\<open>get_real_name\<close> is awaited but never suspends), and again from the end of
  the sleep to the call of the brain in a worker thread. Each of the two stretches is one
  function. \<open>t_activity\<close>, \<open>t_schedule\<close> and \<open>t_token\<close> are the three readings of
  \<open>time.time()\<close> of the first stretch, \<open>minutes\<close> the draw of the scheduler.
\<close>

record clock =
  t_activity :: real
  t_schedule :: real
  minutes :: real
  t_token :: real

datatype arrival =
    Own_message
  | To_handle_dm
  | Other_channel
  | Locked_out
  | Waiting real

definition is_direct_message :: "KirgClient \<Rightarrow> message \<Rightarrow> bool" where
  "is_direct_message st m = (m_mentions_me m \<or> m_reference_author m = Some (u_id (me_user st)))"

text \<open>
  \<open>clean_content\<close>: every mention of the bot's own id, the text \<open><@id>\<close> with the id in
  decimal digits, is replaced by \<open>@Me\<close>.
\<close>

definition clean_content :: "KirgClient \<Rightarrow> message \<Rightarrow> ustr" where
  "clean_content st m =
     str_replace (u ''<@'' @ str_of_nat (u_id (me_user st)) @ u ''>'') (u ''@Me'') (m_content m)"

definition on_message_arrive :: "KirgClient \<Rightarrow> message \<Rightarrow> clock \<Rightarrow> KirgClient \<times> arrival" where
  "on_message_arrive st m c =
     (if u_id (m_author m) = u_id (me_user st) then (st, Own_message)
      else if m_guild m = None then (st, To_handle_dm)
      else if Some (m_channel_id m) \<noteq> target_channel_id st then (st, Other_channel)
      else if processing_lock st then (st, Locked_out)
      else
        (let ch = m_channel_id m;
             known1 = remember_user (m_author m) (known_users st);
             memory = (case chat_memories st (Channel ch) of None \<Rightarrow> [] | Some h \<Rightarrow> h);
             (known2, real_name) = get_real_name (m_author m) (m_guild m) known1;
             st1 = st\<lparr>known_users := known2,
                      chat_memories := (chat_memories st)
                        (Channel ch \<mapsto> deque_append (real_name, clean_content st m) memory),
                      last_activity_time := t_activity c\<rparr>;
             st2 = schedule_next_proactivity (t_schedule c) (minutes c) st1;
             st3 = (if is_direct_message st m
                    then st2\<lparr>channel_mentions_pending := (channel_mentions_pending st2)(ch \<mapsto> True)\<rparr>
                    else st2);
             st4 = st3\<lparr>channel_debounces := (channel_debounces st3)(ch \<mapsto> t_token c)\<rparr>
         in (st4, Waiting (t_token c))))"

text \<open>
  The second stretch, for the message \<open>m\<close> whose first stretch stored \<open>this_msg_time\<close>.
  \<open>Proceed\<close> carries the arguments of \<open>decide_and_respond\<close>; the lock is then held.
  \<open>message.guild.me\<close> of a message without a guild raises inside \<open>async with\<close>, which
  gives the lock back.
\<close>

datatype wake =
    Stale
  | Busy
  | Raised
  | Proceed history ustr bool

definition on_message_wake :: "KirgClient \<Rightarrow> message \<Rightarrow> real \<Rightarrow> KirgClient \<times> wake" where
  "on_message_wake st m this_msg_time =
     (if channel_debounces st (m_channel_id m) \<noteq> Some this_msg_time then (st, Stale)
      else if processing_lock st then (st, Busy)
      else
        (let ch = m_channel_id m;
             mention_was_pending =
               (case channel_mentions_pending st ch of None \<Rightarrow> False | Some p \<Rightarrow> p);
             st1 = st\<lparr>channel_mentions_pending := (channel_mentions_pending st)(ch \<mapsto> False)\<rparr>;
             history_list = (case chat_memories st (Channel ch) of None \<Rightarrow> [] | Some h \<Rightarrow> h)
         in case m_guild m of
              None \<Rightarrow> (st1, Raised)
            | Some g \<Rightarrow>
                (st1\<lparr>processing_lock := True\<rparr>,
                 Proceed history_list (g_me_display_name g) mention_was_pending)))"

subsection \<open>The send loop\<close>

text \<open>
  \<open>_send_response_package\<close>, one turn of its loop at a time. \<open>p_lines\<close> are the lines not
  yet sent and \<open>p_index\<close> is \<open>i\<close>. \<open>delivered\<close> says whether the gateway call returned;
  when it raised, or when \<open>chat_memories[memory_id]\<close> is missing, the handler of the turn
  prints and the loop goes on. The second component is what reached the gateway.
\<close>

record package =
  p_channel :: nat
  p_lines :: "ustr list"
  p_index :: nat
  p_my_name :: ustr
  p_memory_id :: memory_id
  p_reply_to :: "nat option"

datatype delivery = Reply nat ustr | Send nat ustr

definition send_line :: "KirgClient \<Rightarrow> package \<Rightarrow> bool \<Rightarrow> KirgClient \<times> delivery option \<times> package" where
  "send_line st pk delivered =
     (case p_lines pk of
        [] \<Rightarrow> (st, None, pk)
      | line # rest \<Rightarrow>
          (let formatted_line = format_mentions (known_users st) line;
               pk' = pk\<lparr>p_lines := rest, p_index := Suc (p_index pk)\<rparr>;
               sent = (case p_reply_to pk of
                         Some r \<Rightarrow> if p_index pk = 0 then Reply r formatted_line
                                   else Send (p_channel pk) formatted_line
                       | None \<Rightarrow> Send (p_channel pk) formatted_line)
           in if delivered then
                (case chat_memories st (p_memory_id pk) of
                   Some h \<Rightarrow>
                     (st\<lparr>chat_memories := (chat_memories st)
                           (p_memory_id pk \<mapsto> deque_append (p_my_name pk, line) h)\<rparr>,
                      Some sent, pk')
                 | None \<Rightarrow> (st, Some sent, pk'))
              else (st, None, pk')))"

subsection \<open>The proactivity loop\<close>

text \<open>
  One turn of the loop of \<open>proactivity_loop\<close>, from the end of \<open>asyncio.sleep(30)\<close> to
  the call of the brain or back to the sleep. \<open>channel_found\<close> is whether
  \<open>get_channel\<close> returned a channel.
\<close>

record tick =
  t_now :: real
  t_channel_found :: bool
  t_reschedule :: real
  t_minutes :: real

datatype tick_result =
    No_target
  | Not_due
  | Own_last
  | Lock_held
  | No_channel
  | Start history ustr

definition proactivity_tick :: "KirgClient \<Rightarrow> tick \<Rightarrow> KirgClient \<times> tick_result" where
  "proactivity_tick st e =
     (case target_channel_id st of
        None \<Rightarrow> (st, No_target)
      | Some target \<Rightarrow>
          if target = 0 then (st, No_target)
          else if \<not> t_now e > next_activity_trigger st then (st, Not_due)
          else if (case chat_memories st (Channel target) of
                     None \<Rightarrow> False
                   | Some h \<Rightarrow> h \<noteq> [] \<and> fst (last h) = u_display_name (me_user st))
          then (schedule_next_proactivity (t_reschedule e) (t_minutes e) st, Own_last)
          else if processing_lock st
          then (schedule_next_proactivity (t_reschedule e) (t_minutes e) st, Lock_held)
          else if \<not> t_channel_found e
          then (schedule_next_proactivity (t_reschedule e) (t_minutes e) st, No_channel)
          else (st\<lparr>processing_lock := True\<rparr>,
                Start (case chat_memories st (Channel target) of None \<Rightarrow> [] | Some h \<Rightarrow> h)
                  (u_display_name (me_user st))))"

subsection \<open>The tasks on the event loop\<close>

text \<open>
  The tasks of the target channel run on one event loop and give up control only at an
  \<open>await\<close>. Each invocation of \<open>on_message\<close> that reaches its sleep is a task, numbered
  by its place in \<open>handlers\<close>; the proactivity loop is one more task. An event is the
  end of one wait, and \<open>step\<close> runs the task from there to its next wait: the end of the
  reading delay, the return of the brain from its worker thread, the end of one gateway
  call of the send loop. Nothing else can write the fields a send reads while the lock is
  held, so one turn of the send loop is one step. Leaving \<open>async with\<close> gives the lock
  back. \<open>outbox\<close> lists what reached the gateway, oldest first, each line with the
  decision-and-send cycle it belongs to: the handler task, or the number of the cycle of
  the proactivity loop. Direct messages go to \<open>_handle_dm\<close>, which queues on the lock
  inside asyncio; that queue is not part of the repository and not part of this system.
\<close>

datatype owner = Handler nat | Proactive nat

datatype handler_pc =
    Reading message real
  | Deciding message history ustr bool
  | Sending package
  | Finished

datatype proactive_pc =
    Sleeping
  | Pro_deciding history ustr
  | Pro_sending package

record system =
  kirg :: KirgClient
  handlers :: "handler_pc list"
  proactive :: proactive_pc
  pro_cycles :: nat
  outbox :: "(owner \<times> delivery) list"

datatype event =
    Message message clock
  | Wake nat
  | Decided nat
  | Delivered nat bool
  | Tick tick
  | Pro_decided real real
  | Pro_delivered bool real real

definition release :: "KirgClient \<Rightarrow> KirgClient" where
  "release st = st\<lparr>processing_lock := False\<rparr>"

definition emit :: "owner \<Rightarrow> delivery option \<Rightarrow> (owner \<times> delivery) list \<Rightarrow> (owner \<times> delivery) list" where
  "emit ow sent out = (case sent of None \<Rightarrow> out | Some d \<Rightarrow> out @ [(ow, d)])"

definition step_message :: "system \<Rightarrow> message \<Rightarrow> clock \<Rightarrow> system" where
  "step_message s m c =
     (case on_message_arrive (kirg s) m c of
        (st', Waiting this_msg_time) \<Rightarrow>
          s\<lparr>kirg := st', handlers := handlers s @ [Reading m this_msg_time]\<rparr>
      | (st', _) \<Rightarrow> s\<lparr>kirg := st'\<rparr>)"

definition step_wake :: "system \<Rightarrow> nat \<Rightarrow> message \<Rightarrow> real \<Rightarrow> system" where
  "step_wake s t m this_msg_time =
     (case on_message_wake (kirg s) m this_msg_time of
        (st', Proceed history_list my_nickname pending) \<Rightarrow>
          s\<lparr>kirg := st',
            handlers := (handlers s)[t := Deciding m history_list my_nickname pending]\<rparr>
      | (st', _) \<Rightarrow> s\<lparr>kirg := st', handlers := (handlers s)[t := Finished]\<rparr>)"

text \<open>
  \<open>if response:\<close> enters the send loop; otherwise the handler leaves \<open>async with\<close>.
\<close>

definition step_decided :: "KirgBrain \<Rightarrow> system \<Rightarrow> nat \<Rightarrow> message \<Rightarrow> history \<Rightarrow> ustr \<Rightarrow> bool \<Rightarrow> system" where
  "step_decided b s t m history_list my_nickname pending =
     (case decide_and_respond b history_list my_nickname pending of
        None \<Rightarrow> s\<lparr>kirg := release (kirg s), handlers := (handlers s)[t := Finished]\<rparr>
      | Some response \<Rightarrow>
          if response = []
          then s\<lparr>kirg := release (kirg s), handlers := (handlers s)[t := Finished]\<rparr>
          else s\<lparr>handlers := (handlers s)[t := Sending
                 \<lparr>p_channel = m_channel_id m, p_lines = response, p_index = 0,
                  p_my_name = my_nickname, p_memory_id = Channel (m_channel_id m),
                  p_reply_to = (if pending then Some (m_id m) else None)\<rparr>]\<rparr>)"

definition step_delivered :: "system \<Rightarrow> nat \<Rightarrow> package \<Rightarrow> bool \<Rightarrow> system" where
  "step_delivered s t pk delivered =
     (case send_line (kirg s) pk delivered of
        (st', sent, pk') \<Rightarrow>
          if p_lines pk' = []
          then s\<lparr>kirg := release st', handlers := (handlers s)[t := Finished],
                 outbox := emit (Handler t) sent (outbox s)\<rparr>
          else s\<lparr>kirg := st', handlers := (handlers s)[t := Sending pk'],
                 outbox := emit (Handler t) sent (outbox s)\<rparr>)"

definition step_tick :: "system \<Rightarrow> tick \<Rightarrow> system" where
  "step_tick s e =
     (case proactivity_tick (kirg s) e of
        (st', Start history_list my_nick) \<Rightarrow>
          s\<lparr>kirg := st', proactive := Pro_deciding history_list my_nick\<rparr>
      | (st', _) \<Rightarrow> s\<lparr>kirg := st'\<rparr>)"

text \<open>
  The end of a cycle of the proactivity loop: the lock is given back, then
  \<open>_schedule_next_proactivity\<close> runs and the loop sleeps again.
\<close>

definition pro_finish :: "system \<Rightarrow> KirgClient \<Rightarrow> real \<Rightarrow> real \<Rightarrow> system" where
  "pro_finish s st now mins =
     s\<lparr>kirg := schedule_next_proactivity now mins (release st),
       proactive := Sleeping, pro_cycles := Suc (pro_cycles s)\<rparr>"

definition step_pro_decided :: "KirgBrain \<Rightarrow> system \<Rightarrow> history \<Rightarrow> ustr \<Rightarrow> real \<Rightarrow> real \<Rightarrow> system" where
  "step_pro_decided b s history_list my_nick now mins =
     (case target_channel_id (kirg s) of
        None \<Rightarrow> pro_finish s (kirg s) now mins
      | Some target \<Rightarrow>
          (let response = decide_proactive_message b history_list my_nick
           in if response = [] then pro_finish s (kirg s) now mins
              else s\<lparr>proactive := Pro_sending
                     \<lparr>p_channel = target, p_lines = response, p_index = 0,
                      p_my_name = my_nick, p_memory_id = Channel target,
                      p_reply_to = None\<rparr>\<rparr>))"

definition step_pro_delivered :: "system \<Rightarrow> package \<Rightarrow> bool \<Rightarrow> real \<Rightarrow> real \<Rightarrow> system" where
  "step_pro_delivered s pk delivered now mins =
     (case send_line (kirg s) pk delivered of
        (st', sent, pk') \<Rightarrow>
          if p_lines pk' = []
          then (pro_finish s st' now mins)
                 \<lparr>outbox := emit (Proactive (pro_cycles s)) sent (outbox s)\<rparr>
          else s\<lparr>kirg := st', proactive := Pro_sending pk',
                 outbox := emit (Proactive (pro_cycles s)) sent (outbox s)\<rparr>)"

text \<open>An event that no task is waiting for changes nothing.\<close>

fun step :: "KirgBrain \<Rightarrow> system \<Rightarrow> event \<Rightarrow> system" where
  "step b s (Message m c) = step_message s m c"
| "step b s (Wake t) =
     (if t < length (handlers s) then
        (case handlers s ! t of
           Reading m this_msg_time \<Rightarrow> step_wake s t m this_msg_time
         | _ \<Rightarrow> s)
      else s)"
| "step b s (Decided t) =
     (if t < length (handlers s) then
        (case handlers s ! t of
           Deciding m history_list my_nickname pending \<Rightarrow>
             step_decided b s t m history_list my_nickname pending
         | _ \<Rightarrow> s)
      else s)"
| "step b s (Delivered t delivered) =
     (if t < length (handlers s) then
        (case handlers s ! t of
           Sending pk \<Rightarrow> step_delivered s t pk delivered
         | _ \<Rightarrow> s)
      else s)"
| "step b s (Tick e) =
     (case proactive s of
        Sleeping \<Rightarrow> step_tick s e
      | _ \<Rightarrow> s)"
| "step b s (Pro_decided now mins) =
     (case proactive s of
        Pro_deciding history_list my_nick \<Rightarrow> step_pro_decided b s history_list my_nick now mins
      | _ \<Rightarrow> s)"
| "step b s (Pro_delivered delivered now mins) =
     (case proactive s of
        Pro_sending pk \<Rightarrow> step_pro_delivered s pk delivered now mins
      | _ \<Rightarrow> s)"

definition run :: "KirgBrain \<Rightarrow> system \<Rightarrow> event list \<Rightarrow> system" where
  "run b s evs = foldl (step b) s evs"

text \<open>The system after \<open>on_ready\<close>: no task is in flight and the lock is free.\<close>

definition start :: "KirgClient \<Rightarrow> system" where
  "start st =
     \<lparr>kirg = st\<lparr>processing_lock := False\<rparr>, handlers = [], proactive = Sleeping,
      pro_cycles = 0, outbox = []\<rparr>"

text \<open>A task is inside a decision-and-send cycle from the call of the brain to the last send.\<close>

fun in_cycle :: "handler_pc \<Rightarrow> bool" where
  "in_cycle (Deciding m h n p) = True"
| "in_cycle (Sending pk) = True"
| "in_cycle (Reading m t) = False"
| "in_cycle Finished = False"

fun pro_in_cycle :: "proactive_pc \<Rightarrow> bool" where
  "pro_in_cycle Sleeping = False"
| "pro_in_cycle (Pro_deciding h n) = True"
| "pro_in_cycle (Pro_sending pk) = True"

definition cycles :: "system \<Rightarrow> nat" where
  "cycles s = length (filter in_cycle (handlers s)) + (if pro_in_cycle (proactive s) then 1 else 0)"


subsection \<open>Invariants of the event loop\<close>



definition quiet :: "owner list \<Rightarrow> owner \<Rightarrow> bool" where
  "quiet tg ow = (ow \<in> set tg \<longrightarrow> last tg = ow)"

definition lock_inv :: "system \<Rightarrow> bool" where
  "lock_inv s = (cycles s = (if processing_lock (kirg s) then 1 else 0))"



section \<open>Providers and words used in the examples\<close>

text \<open>A brain whose chat-completion client always answers \<open>out\<close>, and one whose client raises.\<close>

definition fixed_brain :: "ustr \<Rightarrow> KirgBrain" where
  "fixed_brain out =
     \<lparr>provider = u ''openrouter'', gemini_model = None,
      client = Some (\<lambda>system_prompt user_prompt temperature max_tokens. Inr (Some out))\<rparr>"

definition failing_brain :: KirgBrain where
  "failing_brain =
     \<lparr>provider = u ''openrouter'', gemini_model = None,
      client = Some (\<lambda>system_prompt user_prompt temperature max_tokens.
                 Inl (Exception (u ''Connection error.'')))\<rparr>"






text \<open>
  A client on channel 7 with one remembered message, the same client while a cycle holds
  the lock, and a message of another member of the guild that mentions the bot.
\<close>

definition bot :: user where
  "bot = \<lparr>u_id = 1, u_bot = False, u_name = u ''ian'', u_display_name = u ''Ian'',
          u_nick = None, u_mention = u ''<@1>''\<rparr>"

definition ana :: user where
  "ana = \<lparr>u_id = 2, u_bot = False, u_name = u ''ana'', u_display_name = u ''Ana'',
          u_nick = None, u_mention = u ''<@2>''\<rparr>"

definition example_guild :: guild where
  "example_guild = \<lparr>g_members = [bot, ana], g_me_display_name = u ''Ian''\<rparr>"

definition idle_client :: KirgClient where
  "idle_client =
     \<lparr>me_user = bot, target_channel_id = Some 7,
      chat_memories = Map.empty(Channel 7 \<mapsto> [(u ''Bob'', u ''kkk'')]),
      processing_lock = False, known_users = [],
      channel_debounces = Map.empty, channel_mentions_pending = Map.empty,
      last_activity_time = 0, next_activity_trigger = 600\<rparr>"

definition busy_client :: KirgClient where
  "busy_client = idle_client\<lparr>processing_lock := True\<rparr>"

definition hello :: message where
  "hello = \<lparr>m_id = 100, m_author = ana, m_guild = Some example_guild, m_channel_id = 7,
            m_content = u ''oi <@1>'', m_mentions_me = True, m_reference_author = None\<rparr>"

definition at_10 :: clock where
  "at_10 = \<lparr>t_activity = 10, t_schedule = 10, minutes = 5, t_token = 10\<rparr>"

definition at_11 :: clock where
  "at_11 = \<lparr>t_activity = 11, t_schedule = 11, minutes = 6, t_token = 11\<rparr>"

text \<open>
  A tick after the deadline, a second message in the channel, a provider that answers two
  lines, and a run in which a proactive cycle and a reactive cycle follow each other while
  the other trigger fires in between.
\<close>

definition due :: tick where
  "due = \<lparr>t_now = 700, t_channel_found = True, t_reschedule = 700, t_minutes = 5\<rparr>"

definition later :: message where
  "later = hello\<lparr>m_id := 101, m_content := u ''cade'', m_mentions_me := False\<rparr>"

definition chatty :: KirgBrain where
  "chatty = fixed_brain (u ''fala ana'' @ nl @ u ''slk mid'')"

definition busy_day :: "event list" where
  "busy_day =
     [Message hello at_10, Tick due, Wake 0, Pro_decided 701 5, Pro_delivered True 702 5,
      Message later at_11, Wake 1, Tick due, Decided 1, Delivered 1 True, Delivered 1 True]"

section \<open>Evaluation\<close>

lemmas str_defs =
  u_def nl_def isspace_def lower_cp_def str_lower_def str_strip_def starts_with_def
  starts_with_ci_def str_remove_def SKIP_def colon_def

lemmas post_defs =
  post_process_def falsy_def match_think_at_def active_users_def recent_contents_def
  process_line_def filter_hallucinated_def before_colon_def after_colon_def clean_line_def
  str_split_ws_def strip_quotes_def common_slang_def slang_key_def

lemmas client_defs =
  bot_def ana_def example_guild_def idle_client_def busy_client_def hello_def at_10_def
  at_11_def due_def later_def chatty_def busy_day_def


lemma generate_response_fixed:
  "generate_response (fixed_brain out) system_prompt user_prompt temperature max_tokens
     = Some (str_strip out)"
  by (simp add: generate_response_def generate_try_def call_client_def fixed_brain_def)

lemma generate_try_failing:
  "generate_try failing_brain system_prompt user_prompt temperature max_tokens
     = Inl (Exception (u ''Connection error.''))"
  by (simp add: generate_try_def call_client_def failing_brain_def)

section \<open>The decision engine catches provider failures\<close>

lemma gemini_raises:
  assumes "provider b = u ''gemini''" and "gemini_model b = Some g"
    and "g (u ''SYSTEM INSTRUCTION: '' @ system_prompt @ nl @ nl @ u ''USER INPUT: '' @ user_prompt)
           temperature max_tokens = Inl e"
  shows "generate_try b system_prompt user_prompt temperature max_tokens = Inl e"
  using assms by (simp add: generate_try_def call_gemini_def)

lemma client_raises:
  assumes "provider b \<noteq> u ''gemini'' \<or> gemini_model b = None" and "client b = Some c"
    and "c system_prompt user_prompt temperature max_tokens = Inl e"
  shows "generate_try b system_prompt user_prompt temperature max_tokens = Inl e"
  using assms by (auto simp: generate_try_def call_client_def split: option.splits)

text \<open>
  Claim C4. Whenever the provider call inside \<open>_generate_response\<close> raises, for every
  history, name and direct flag, \<open>decide_and_respond\<close> returns \<open>None\<close>: the exception
  ends in the handler and the caller sees no response.
\<close>

theorem provider_exception_gives_no_response:
  assumes "generate_try b (reactive_system_prompt my_name direct)
             (reactive_user_prompt chat_history my_name) 0.7 150 = Inl e"
  shows "decide_and_respond b chat_history my_name direct = None"
  using assms
  by (simp add: decide_and_respond_def generate_response_def post_process_def falsy_def)

theorem provider_exception_gives_no_response_witness:
  "decide_and_respond failing_brain [(u ''Ana'', u ''oi'')] (u ''Ian'') True = None"
  by (rule provider_exception_gives_no_response) (rule generate_try_failing)

section \<open>Quote characters\<close>








section \<open>The proactive path\<close>

lemma proactive_fallback:
  assumes "falsy (generate_response b (proactive_system_prompt my_name)
                    (proactive_user_prompt chat_history my_name) 0.9 60)
           \<or> (\<exists>raw. generate_response b (proactive_system_prompt my_name)
                    (proactive_user_prompt chat_history my_name) 0.9 60 = Some raw \<and> str_contains SKIP raw)"
  shows "decide_proactive_message b chat_history my_name = [fallback]"
  using assms by (auto simp: decide_proactive_message_def proactive_post_def falsy_def split: option.splits)

text \<open>
  Claim C5, at a provider output that is nothing but a think span: the guard for a missing
  or skipped answer has already passed when the span is deleted, so the one message
  returned is the empty string and not the fallback line.
\<close>

theorem proactive_think_only_is_empty:
  "decide_proactive_message (fixed_brain (u ''<think>nada pra falar</think>'')) [] (u ''Ian'') = [[]]"
  by (simp add: decide_proactive_message_def generate_response_fixed proactive_post_def str_defs post_defs)

text \<open>
  Claim C10. \<open>decide_proactive_message\<close> always returns a list of exactly one string: the
  fallback line, or the whole cleaned answer of the provider in lower case, never a part of
  it. An answer of two lines stays one string with the newline in it, and an answer that
  is only a tagged span gives the empty string.
\<close>

theorem proactive_returns_one_string:
  "(\<exists>s. decide_proactive_message b chat_history my_name = [s])
   \<and> (decide_proactive_message b chat_history my_name = [fallback]
        \<or> (\<exists>raw. generate_response b (proactive_system_prompt my_name)
                     (proactive_user_prompt chat_history my_name) 0.9 60 = Some raw
                 \<and> decide_proactive_message b chat_history my_name
                     = [str_lower (strip_quotes (str_strip (strip_think raw)))]))
   \<and> decide_proactive_message (fixed_brain (u ''que tedio'' @ nl @ u ''Bora Jogar'')) chat_history my_name
       = [u ''que tedio'' @ nl @ u ''bora jogar'']
   \<and> decide_proactive_message (fixed_brain (u ''<thought>hm</thought>'')) chat_history my_name = [[]]"
proof -
  have one: "\<exists>s. decide_proactive_message b chat_history my_name = [s]"
    by (simp add: decide_proactive_message_def proactive_post_def split: option.splits)
  have whole: "decide_proactive_message b chat_history my_name = [fallback]
        \<or> (\<exists>raw. generate_response b (proactive_system_prompt my_name)
                     (proactive_user_prompt chat_history my_name) 0.9 60 = Some raw
                 \<and> decide_proactive_message b chat_history my_name
                     = [str_lower (strip_quotes (str_strip (strip_think raw)))])"
    by (auto simp: decide_proactive_message_def proactive_post_def split: option.splits)
  have two_lines: "decide_proactive_message (fixed_brain (u ''que tedio'' @ nl @ u ''Bora Jogar''))
                     chat_history my_name = [u ''que tedio'' @ nl @ u ''bora jogar'']"
    by (simp add: decide_proactive_message_def generate_response_fixed proactive_post_def
          str_defs post_defs)
  have only_tag: "decide_proactive_message (fixed_brain (u ''<thought>hm</thought>''))
                    chat_history my_name = [[]]"
    by (simp add: decide_proactive_message_def generate_response_fixed proactive_post_def
          str_defs post_defs)
  show ?thesis
    using one whole two_lines only_tag by blast
qed

section \<open>Invented speaker prefixes\<close>

text \<open>
  Claim C2, as stated, at the line \<open>Bob : kkk\<close> with participant Bob and bot Ian: the text
  before the first colon is \<open>Bob\<close> followed by a space, which equals neither name when
  case is ignored, yet the line is dropped and not kept.
\<close>

theorem colon_prefix_counterexample:
  "before_colon (u ''Bob : kkk'') = u ''Bob ''
   \<and> str_lower (u ''Bob '') \<noteq> str_lower (u ''Bob'')
   \<and> str_lower (u ''Bob '') \<noteq> str_lower (u ''Ian'')
   \<and> filter_hallucinated [u ''Bob''] (u ''Ian'') (u ''Bob : kkk'') = None
   \<and> decide_and_respond (fixed_brain (u ''Bob : kkk'')) [(u ''Bob'', u ''oi'')] (u ''Ian'') False
       = None"
  by (simp add: decide_and_respond_def generate_response_fixed str_defs post_defs)

lemma before_colon_append: "colon \<notin> set name \<Longrightarrow> before_colon (name @ colon # content) = name"
  by (induction name) (auto simp: before_colon_def)

lemma after_colon_append: "colon \<notin> set name \<Longrightarrow> after_colon (name @ colon # content) = content"
  by (induction name) (auto simp: after_colon_def)

text \<open>
  Claim C2, amended. For a line \<open>name:content\<close>, where \<open>name\<close> is the text before the
  first colon: \<open>name\<close> is trimmed of surrounding white space and put in lower case, then
  compared with the names in lower case. If it equals the bot's name, the trimmed
  \<open>content\<close> goes on; if it equals a participant's name and not the bot's, the line is
  dropped; otherwise the line goes on unchanged.
\<close>

theorem colon_prefix_rule:
  assumes "colon \<notin> set name"
  shows "filter_hallucinated users my_name (name @ colon # content) =
           (if str_lower (str_strip name) = str_lower my_name then Some (str_strip content)
            else if str_lower (str_strip name) \<in> set (map str_lower users) then None
            else Some (name @ colon # content))"
  using assms by (simp add: filter_hallucinated_def before_colon_append after_colon_append Let_def)

theorem colon_prefix_rule_witness:
  "colon \<notin> set (u ''IAN '') \<and>
   filter_hallucinated [u ''Bob''] (u ''Ian'') (u ''IAN '' @ colon # u '' slk mid'') = Some (u ''slk mid'')"
  using colon_prefix_rule[of "u ''IAN ''" "[u ''Bob'']" "u ''Ian''" "u '' slk mid''"]
  by (simp add: str_defs)

section \<open>Repeated slang\<close>







section \<open>Mention resolution\<close>








section \<open>Inbound messages and the memory\<close>

lemma deque_append_last: "last (deque_append x xs) = x" "deque_append x xs \<noteq> []"
  by (simp_all add: deque_append_def)

lemma deque_append_length: "length xs \<le> HISTORY_LIMIT \<Longrightarrow> length (deque_append x xs) \<le> HISTORY_LIMIT"
  by (auto simp: deque_append_def HISTORY_LIMIT_def)

text \<open>
  Claim C1, as stated, at a message of another member in the target channel that arrives
  while a cycle holds the lock: the handler returns at once and the memory of the channel
  is what it was, without the new pair.
\<close>

theorem locked_out_message_not_recorded:
  "Some (m_channel_id hello) = target_channel_id busy_client
   \<and> processing_lock busy_client
   \<and> on_message_arrive busy_client hello at_10 = (busy_client, Locked_out)
   \<and> chat_memories busy_client (Channel 7) = Some [(u ''Bob'', u ''kkk'')]"
  by (simp add: on_message_arrive_def client_defs)

text \<open>
  Claim C1, amended. A message of another account in the target channel either finds the
  lock held, and then the handler returns with nothing changed, or finds it free, and then
  the pair of the speaker's name and the cleaned text is appended to the memory of the
  channel within the first stretch of the handler, which ends where the debounce wait
  begins.
\<close>

theorem inbound_message_recorded_when_lock_free:
  assumes "u_id (m_author m) \<noteq> u_id (me_user st)" and "m_guild m \<noteq> None"
    and "target_channel_id st = Some (m_channel_id m)"
  shows "(processing_lock st \<longrightarrow> on_message_arrive st m c = (st, Locked_out))
       \<and> (\<not> processing_lock st \<longrightarrow>
            snd (on_message_arrive st m c) = Waiting (t_token c)
            \<and> chat_memories (fst (on_message_arrive st m c)) (Channel (m_channel_id m))
                = Some (deque_append
                     (snd (get_real_name (m_author m) (m_guild m)
                             (remember_user (m_author m) (known_users st))),
                      clean_content st m)
                     (case chat_memories st (Channel (m_channel_id m)) of None \<Rightarrow> [] | Some h \<Rightarrow> h)))"
  using assms
  by (auto simp: on_message_arrive_def Let_def schedule_next_proactivity_def split: prod.splits)

theorem inbound_message_recorded_when_lock_free_witness:
  "u_id (m_author hello) \<noteq> u_id (me_user idle_client) \<and> m_guild hello \<noteq> None
   \<and> target_channel_id idle_client = Some (m_channel_id hello)
   \<and> \<not> processing_lock idle_client
   \<and> snd (on_message_arrive idle_client hello at_10) = Waiting 10
   \<and> chat_memories (fst (on_message_arrive idle_client hello at_10)) (Channel 7)
       = Some [(u ''Bob'', u ''kkk''), (u ''Ana'', u ''oi @Me'')]"
proof -
  have pre: "u_id (m_author hello) \<noteq> u_id (me_user idle_client)" "m_guild hello \<noteq> None"
    "target_channel_id idle_client = Some (m_channel_id hello)"
    by (simp_all add: client_defs)
  have free: "\<not> processing_lock idle_client"
    by (simp add: client_defs)
  have speaker: "snd (get_real_name (m_author hello) (m_guild hello)
                        (remember_user (m_author hello) (known_users idle_client))) = u ''Ana''"
    by (simp add: client_defs get_real_name_def get_member_def remember_user_def str_defs Let_def)
  have cleaned: "clean_content idle_client hello = u ''oi @Me''"
    by (simp add: clean_content_def client_defs str_of_nat.simps str_replace_def str_defs)
  have memory: "chat_memories idle_client (Channel 7) = Some [(u ''Bob'', u ''kkk'')]"
    by (simp add: client_defs)
  have ch: "m_channel_id hello = 7" and tok: "t_token at_10 = 10"
    by (simp_all add: client_defs)
  note inst = inbound_message_recorded_when_lock_free[OF pre, of at_10]
  have "snd (on_message_arrive idle_client hello at_10) = Waiting 10"
    using inst free tok by simp
  moreover have "chat_memories (fst (on_message_arrive idle_client hello at_10)) (Channel 7)
       = Some [(u ''Bob'', u ''kkk''), (u ''Ana'', u ''oi @Me'')]"
    using inst free by (simp add: speaker cleaned memory ch deque_append_def HISTORY_LIMIT_def)
  ultimately show ?thesis
    using pre free by blast
qed

section \<open>The lock and the outbox\<close>

lemma arrive_lock:
  "on_message_arrive st m c = (st', a) \<Longrightarrow> processing_lock st' = processing_lock st"
  by (auto simp: on_message_arrive_def Let_def schedule_next_proactivity_def
           split: if_splits prod.splits)

lemma arrive_waiting_free:
  "on_message_arrive st m c = (st', Waiting tok) \<Longrightarrow> \<not> processing_lock st"
  by (auto simp: on_message_arrive_def Let_def split: if_splits prod.splits)

lemma wake_proceed:
  "on_message_wake st m tok = (st', Proceed h n p) \<Longrightarrow> \<not> processing_lock st \<and> processing_lock st'"
  by (auto simp: on_message_wake_def Let_def split: if_splits option.splits)

lemma wake_other:
  "on_message_wake st m tok = (st', w) \<Longrightarrow> \<forall>h n p. w \<noteq> Proceed h n p \<Longrightarrow>
   processing_lock st' = processing_lock st"
  by (auto simp: on_message_wake_def Let_def split: if_splits option.splits)

lemma send_line_lock:
  "send_line st pk d = (st', sent, pk') \<Longrightarrow> processing_lock st' = processing_lock st"
  by (auto simp: send_line_def Let_def split: list.splits if_splits option.splits)

lemma tick_start:
  "proactivity_tick st e = (st', Start h n) \<Longrightarrow> \<not> processing_lock st \<and> processing_lock st'"
  by (auto simp: proactivity_tick_def schedule_next_proactivity_def split: option.splits if_splits)

lemma tick_other:
  "proactivity_tick st e = (st', r) \<Longrightarrow> \<forall>h n. r \<noteq> Start h n \<Longrightarrow>
   processing_lock st' = processing_lock st"
  by (auto simp: proactivity_tick_def schedule_next_proactivity_def split: option.splits if_splits)

lemma count_update:
  "i < length xs \<Longrightarrow>
   length (filter P (xs[i := y])) + (if P (xs ! i) then 1 else 0)
     = length (filter P xs) + (if P y then 1 else 0)"
proof (induction xs arbitrary: i)
  case Nil
  then show ?case by simp
next
  case (Cons x xs)
  then show ?case by (cases i) auto
qed

lemma count_pos: "i < length xs \<Longrightarrow> P (xs ! i) \<Longrightarrow> 0 < length (filter P xs)"
  by (metis filter_empty_conv length_greater_0_conv nth_mem)





lemma quiet_emit: "quiet (map fst (emit ow sent out)) ow \<or> sent = None"
  by (cases sent) (simp_all add: emit_def quiet_def)


lemma lock_inv_message: "lock_inv s \<Longrightarrow> lock_inv (step_message s m c)"
  by (auto simp: step_message_def lock_inv_def cycles_def split: prod.splits arrival.splits
           dest: arrive_lock)

lemma lock_inv_wake:
  assumes "lock_inv s" and "t < length (handlers s)" and "handlers s ! t = Reading m tok"
  shows "lock_inv (step_wake s t m tok)"
proof -
  obtain st' w where w: "on_message_wake (kirg s) m tok = (st', w)"
    by (cases "on_message_wake (kirg s) m tok")
  have upd: "length (filter in_cycle ((handlers s)[t := pc])) =
             length (filter in_cycle (handlers s)) + (if in_cycle pc then 1 else 0)" for pc
    using count_update[of t "handlers s" in_cycle pc] assms(2,3) by simp
  show ?thesis
  proof (cases "\<exists>h n p. w = Proceed h n p")
    case True
    then obtain h n p where p: "w = Proceed h n p" by blast
    then have "\<not> processing_lock (kirg s)" "processing_lock st'"
      using wake_proceed w by blast+
    then show ?thesis
      using assms(1) w p by (simp add: step_wake_def lock_inv_def cycles_def upd)
  next
    case False
    then have "processing_lock st' = processing_lock (kirg s)"
      using wake_other w by blast
    then show ?thesis
      using assms(1) w False
      by (cases w) (simp_all add: step_wake_def lock_inv_def cycles_def upd)
  qed
qed

lemma lock_inv_leave:
  assumes "lock_inv s" and "t < length (handlers s)" and "in_cycle (handlers s ! t)"
  shows "processing_lock (kirg s)"
    and "length (filter in_cycle ((handlers s)[t := pc])) + 1 =
           length (filter in_cycle (handlers s)) + (if in_cycle pc then 1 else 0)"
    and "length (filter in_cycle (handlers s)) = 1" and "\<not> pro_in_cycle (proactive s)"
proof -
  have pos: "0 < length (filter in_cycle (handlers s))"
    using count_pos assms(2,3) by blast
  then show "processing_lock (kirg s)"
    using assms(1) by (auto simp: lock_inv_def cycles_def split: if_splits)
  show "length (filter in_cycle ((handlers s)[t := pc])) + 1 =
           length (filter in_cycle (handlers s)) + (if in_cycle pc then 1 else 0)"
    using count_update[of t "handlers s" in_cycle pc] assms(2,3) by simp
  show "length (filter in_cycle (handlers s)) = 1" "\<not> pro_in_cycle (proactive s)"
    using pos assms(1) by (auto simp: lock_inv_def cycles_def split: if_splits)
qed

lemma lock_inv_decided:
  assumes "lock_inv s" and "t < length (handlers s)" and "handlers s ! t = Deciding m h n p"
  shows "lock_inv (step_decided b s t m h n p)"
proof -
  have c: "in_cycle (handlers s ! t)" using assms(3) by simp
  note f = lock_inv_leave[OF assms(1,2) c]
  show ?thesis
    using f(1) f(2)[of Finished] f(2)[of "Sending pk" for pk] f(3,4)
    by (auto simp: step_decided_def lock_inv_def cycles_def release_def split: option.splits)
qed

lemma lock_inv_delivered:
  assumes "lock_inv s" and "t < length (handlers s)" and "handlers s ! t = Sending pk"
  shows "lock_inv (step_delivered s t pk d)"
proof -
  have c: "in_cycle (handlers s ! t)" using assms(3) by simp
  note f = lock_inv_leave[OF assms(1,2) c]
  obtain st' sent pk' where sl: "send_line (kirg s) pk d = (st', sent, pk')"
    by (cases "send_line (kirg s) pk d") auto
  then have "processing_lock st'"
    using send_line_lock f(1) by blast
  then show ?thesis
    using sl f(2)[of Finished] f(2)[of "Sending pk'"] f(3,4)
    by (auto simp: step_delivered_def lock_inv_def cycles_def release_def)
qed

lemma lock_inv_tick:
  assumes "lock_inv s" and "proactive s = Sleeping"
  shows "lock_inv (step_tick s e)"
proof -
  obtain st' r where r: "proactivity_tick (kirg s) e = (st', r)"
    by (cases "proactivity_tick (kirg s) e")
  show ?thesis
  proof (cases "\<exists>h n. r = Start h n")
    case True
    then obtain h n where p: "r = Start h n" by blast
    then have "\<not> processing_lock (kirg s)" "processing_lock st'"
      using tick_start r by blast+
    then show ?thesis
      using assms r p by (simp add: step_tick_def lock_inv_def cycles_def)
  next
    case False
    then have "processing_lock st' = processing_lock (kirg s)"
      using tick_other r by blast
    then show ?thesis
      using assms r False
      by (cases r) (simp_all add: step_tick_def lock_inv_def cycles_def)
  qed
qed

lemma lock_inv_pro_finish:
  assumes "lock_inv s" and "pro_in_cycle (proactive s)"
  shows "lock_inv (pro_finish s st now mins)" 
    and "lock_inv ((pro_finish s st now mins)\<lparr>outbox := out\<rparr>)"
  using assms
  by (auto simp: pro_finish_def lock_inv_def cycles_def release_def schedule_next_proactivity_def
           split: if_splits)

lemma lock_inv_pro_decided:
  assumes "lock_inv s" and "proactive s = Pro_deciding h n"
  shows "lock_inv (step_pro_decided b s h n now mins)"
proof -
  have c: "pro_in_cycle (proactive s)" using assms(2) by simp
  have keep: "lock_inv (s\<lparr>proactive := Pro_sending pk\<rparr>)" for pk
    using assms by (simp add: lock_inv_def cycles_def)
  show ?thesis
    using lock_inv_pro_finish(1)[OF assms(1) c] keep
    by (simp add: step_pro_decided_def Let_def split: option.splits)
qed

lemma lock_inv_pro_delivered:
  assumes "lock_inv s" and "proactive s = Pro_sending pk"
  shows "lock_inv (step_pro_delivered s pk d now mins)"
proof -
  have c: "pro_in_cycle (proactive s)" using assms(2) by simp
  obtain st' sent pk' where sl: "send_line (kirg s) pk d = (st', sent, pk')"
    by (cases "send_line (kirg s) pk d") auto
  have "processing_lock st' = processing_lock (kirg s)"
    using send_line_lock sl by blast
  then have keep: "lock_inv (s\<lparr>kirg := st', proactive := Pro_sending pk', outbox := out\<rparr>)" for out
    using assms by (simp add: lock_inv_def cycles_def)
  show ?thesis
    using lock_inv_pro_finish(2)[OF assms(1) c] keep sl
    by (simp add: step_pro_delivered_def)
qed

lemma lock_inv_step: "lock_inv s \<Longrightarrow> lock_inv (step b s ev)"
  by (cases ev)
     (auto simp: lock_inv_message lock_inv_wake lock_inv_decided lock_inv_delivered
                 lock_inv_tick lock_inv_pro_decided lock_inv_pro_delivered
           split: handler_pc.splits proactive_pc.splits)


lemma lock_inv_run: "lock_inv s \<Longrightarrow> lock_inv (run b s evs)"
  unfolding run_def by (induction evs arbitrary: s) (simp_all add: lock_inv_step)










lemma in_cycle_not_reading: "in_cycle pc \<Longrightarrow> \<forall>m tok. pc \<noteq> Reading m tok"
  by (cases pc) auto


















section \<open>Debounce\<close>









end
